theory Spec2Isabelle
  imports Complex_Main "HOL-Library.Log_Nat" "HOL-Library.AList"
begin

section \<open>django-criterion: the statistical comparison core\<close>

text \<open>
  A shallow embedding of \<^verbatim>\<open>django_criterion/core\<close>: the verdict enumeration and its merge
  (\<^verbatim>\<open>result_type.py\<close>), the query and timing records with their classification
  (\<^verbatim>\<open>queries.py\<close>, \<^verbatim>\<open>timing.py\<close>), the table lookups and the significance test
  (\<^verbatim>\<open>timing.py\<close>), and the comparison and persistence functions of
  \<^verbatim>\<open>core/__init__.py\<close>.

  Every Python exception is a value of \<open>error\<close>; a function that can raise returns
  \<open>error + 'a\<close>, with \<open>Inl\<close> for the exception.
\<close>

subsection \<open>Exceptions\<close>

datatype error =
    KeyError
  | ValueError
  | ZeroDivisionError
  | TypeError
  | AttributeError
  | Exception string
  | SystemExit int

definition bind :: "error + 'a \<Rightarrow> ('a \<Rightarrow> error + 'b) \<Rightarrow> error + 'b" where
  "bind m f = (case m of Inl e \<Rightarrow> Inl e | Inr v \<Rightarrow> f v)"

subsection \<open>\<^verbatim>\<open>result_type.py\<close>: the verdicts and their merge\<close>

datatype ResultType = REGRESSION | IMPROVEMENT | MIXED | UNCHANGED | NO_PREVIOUS_DATA

definition PRECEDENCE :: "ResultType list" where
  "PRECEDENCE = [MIXED, REGRESSION, IMPROVEMENT, UNCHANGED, NO_PREVIOUS_DATA]"

text \<open>\<^verbatim>\<open>tuple.index\<close>: the position of the first occurrence, \<^verbatim>\<open>ValueError\<close> when absent.\<close>

fun index :: "'a list \<Rightarrow> 'a \<Rightarrow> error + nat" where
  "index [] x = Inl ValueError"
| "index (y # ys) x = (if y = x then Inr 0 else bind (index ys x) (\<lambda>i. Inr (Suc i)))"

definition merge :: "ResultType \<Rightarrow> ResultType \<Rightarrow> error + ResultType" where
  "merge self other =
     (if (self = REGRESSION \<and> other = IMPROVEMENT) \<or> (self = IMPROVEMENT \<and> other = REGRESSION)
      then Inr MIXED
      else bind (index PRECEDENCE self) (\<lambda>self_precendence.
           bind (index PRECEDENCE other) (\<lambda>other_precendence.
           Inr (if self_precendence \<le> other_precendence then self else other))))"

text \<open>
  The specification's reading of the merge, written from its words: the fixed precedence
  order \<open>MIXED > REGRESSION > IMPROVEMENT > UNCHANGED > NO_PREVIOUS_DATA\<close> as a rank
  (0 ranks first), and the override for the conflicting pair.
\<close>

fun spec_rank :: "ResultType \<Rightarrow> nat" where
  "spec_rank MIXED = 0"
| "spec_rank REGRESSION = 1"
| "spec_rank IMPROVEMENT = 2"
| "spec_rank UNCHANGED = 3"
| "spec_rank NO_PREVIOUS_DATA = 4"

definition spec_merge :: "ResultType \<Rightarrow> ResultType \<Rightarrow> ResultType" where
  "spec_merge v1 v2 =
     (if {v1, v2} = {REGRESSION, IMPROVEMENT} then MIXED
      else if spec_rank v1 < spec_rank v2 then v1
      else if spec_rank v2 < spec_rank v1 then v2
      else v1)"

subsection \<open>Floating-point arithmetic\<close>

text \<open>
  A Python \<^verbatim>\<open>float\<close> is modelled by the real number it denotes (finite values only:
  infinities and NaN are not values of the model, and overflow is not modelled). Every
  floating-point operation of the source is the exact operation followed by a rounding
  \<open>rnd\<close>, which each definition takes as its first argument. Integers that enter a
  floating-point operation are converted exactly, as Python does for every integer
  below \<open>2 ^ 53\<close>.

  Two roundings matter. \<open>exact\<close> rounds nothing: ideal real arithmetic.
  \<open>binary64\<close> is IEEE 754 double precision, round to nearest, ties to even, with an
  unbounded exponent: what CPython computes wherever the result is a normal number.
\<close>

type_synonym rounding = "real \<Rightarrow> real"

definition exact :: rounding where
  "exact x = x"

definition round_half_even :: "real \<Rightarrow> int" where
  "round_half_even x =
     (let f = \<lfloor>x\<rfloor>; d = x - of_int f
      in if d < 1 / 2 then f else if 1 / 2 < d then f + 1 else if even f then f else f + 1)"

text \<open>The binary exponent of a positive real: \<open>2 ^ e \<le> x < 2 ^ (e + 1)\<close>.\<close>

definition exponent :: "real \<Rightarrow> int" where
  "exponent x = (if 1 \<le> x then bitlen \<lfloor>x\<rfloor> - 1 else - bitlen (\<lceil>1 / x\<rceil> - 1))"

definition binary64 :: rounding where
  "binary64 x =
     (if x = 0 then 0
      else let e = exponent \<bar>x\<bar>
           in of_int (round_half_even (x * 2 powi (52 - e))) * 2 powi (e - 52))"

definition fadd :: "rounding \<Rightarrow> real \<Rightarrow> real \<Rightarrow> real" where
  "fadd rnd x y = rnd (x + y)"

definition fsub :: "rounding \<Rightarrow> real \<Rightarrow> real \<Rightarrow> real" where
  "fsub rnd x y = rnd (x - y)"

definition fmul :: "rounding \<Rightarrow> real \<Rightarrow> real \<Rightarrow> real" where
  "fmul rnd x y = rnd (x * y)"

definition fdiv :: "rounding \<Rightarrow> real \<Rightarrow> real \<Rightarrow> error + real" where
  "fdiv rnd x y = (if y = 0 then Inl ZeroDivisionError else Inr (rnd (x / y)))"

text \<open>\<^verbatim>\<open>x ** 2\<close> and \<^verbatim>\<open>math.sqrt(x)\<close>, the latter raising on a negative argument.\<close>

definition fsquare :: "rounding \<Rightarrow> real \<Rightarrow> real" where
  "fsquare rnd x = rnd (x * x)"

definition fsqrt :: "rounding \<Rightarrow> real \<Rightarrow> error + real" where
  "fsqrt rnd x = (if x < 0 then Inl ValueError else Inr (rnd (sqrt x)))"

subsection \<open>\<^verbatim>\<open>queries.py\<close> and \<^verbatim>\<open>timing.py\<close>: the records and their verdicts\<close>

text \<open>
  The field \<^verbatim>\<open>Queries.value\<close> is named \<open>qvalue\<close>, and the two \<^verbatim>\<open>diff\<close> fields
  \<open>qdiff\<close> and \<open>tdiff\<close>. A captured query is a dictionary from strings to strings.
\<close>

record Queries =
  qvalue :: real
  captured_queries :: "(string \<times> string) list list"
  qdiff :: "real option"

definition Queries_result_type :: "Queries \<Rightarrow> ResultType" where
  "Queries_result_type self =
     (case qdiff self of
        None \<Rightarrow> NO_PREVIOUS_DATA
      | Some d \<Rightarrow> if d = 0 then UNCHANGED else if 0 < d then REGRESSION else IMPROVEMENT)"

record TimingDiff =
  average_diff :: real
  negligible :: bool

definition TimingDiff_result_type :: "TimingDiff \<Rightarrow> ResultType" where
  "TimingDiff_result_type self =
     (if negligible self then UNCHANGED
      else if 0 < average_diff self then REGRESSION else IMPROVEMENT)"

record Timing =
  average :: real
  stdev :: real
  variance :: real
  tdiff :: "TimingDiff option"

definition Timing_result_type :: "Timing \<Rightarrow> ResultType" where
  "Timing_result_type self =
     (case tdiff self of None \<Rightarrow> NO_PREVIOUS_DATA | Some d \<Rightarrow> TimingDiff_result_type d)"

subsection \<open>\<^verbatim>\<open>timing.py\<close>: the critical-value tables\<close>

text \<open>A decimal literal of the source denotes the rounding of its decimal value.\<close>

definition F_TABLE_ALPHA :: "rounding \<Rightarrow> real list" where
  "F_TABLE_ALPHA rnd = map rnd [1 / 100, 25 / 1000, 5 / 100, 1 / 10]"

definition F_TABLE :: "rounding \<Rightarrow> (int \<times> real list) list" where
  "F_TABLE rnd = map (\<lambda>(freedom, row). (freedom, map rnd row))
     [(4, [15977 / 1000, 96045 / 10000, 63882 / 10000, 410725 / 100000]),
      (5, [10967 / 1000, 71464 / 10000, 50503 / 10000, 345298 / 100000]),
      (6, [8466 / 1000, 58198 / 10000, 42839 / 10000, 305455 / 100000]),
      (7, [6993 / 1000, 49949 / 10000, 37870 / 10000, 278493 / 100000]),
      (8, [6029 / 1000, 44333 / 10000, 34381 / 10000, 258935 / 100000]),
      (9, [5351 / 1000, 40260 / 10000, 31789 / 10000, 244034 / 100000]),
      (10, [4849 / 1000, 37168 / 10000, 29782 / 10000, 232260 / 100000]),
      (12, [4155 / 1000, 32773 / 10000, 26866 / 10000, 214744 / 100000]),
      (15, [3522 / 1000, 28621 / 10000, 24034 / 10000, 197222 / 100000]),
      (20, [2938 / 1000, 24645 / 10000, 21242 / 10000, 179384 / 100000]),
      (24, [2659 / 1000, 22693 / 10000, 19838 / 10000, 170185 / 100000]),
      (30, [2386 / 1000, 2074 / 1000, 18409 / 10000, 160648 / 100000]),
      (40, [2114 / 1000, 18750 / 10000, 16928 / 10000, 150562 / 100000]),
      (60, [1836 / 1000, 1667 / 1000, 15343 / 10000, 139520 / 100000]),
      (120, [1533 / 1000, 1433 / 1000, 13519 / 10000, 126457 / 100000])]"

definition linear_regression ::
  "rounding \<Rightarrow> real \<times> real \<Rightarrow> real \<times> real \<Rightarrow> real \<Rightarrow> error + real" where
  "linear_regression rnd p1 p2 x =
     bind (fdiv rnd (fsub rnd (snd p2) (snd p1)) (fsub rnd (fst p2) (fst p1))) (\<lambda>a.
       let b = fsub rnd (snd p1) (fmul rnd a (fst p1))
       in Inr (fadd rnd (fmul rnd a x) b))"

text \<open>
  The \<^verbatim>\<open>for\<close> loop of \<open>fcdf\<close> over the indices \<open>range(0, len(table) - 1)\<close>; falling out
  of the loop raises. Every row has four entries and \<open>F_TABLE_ALPHA\<close> has four, so the
  reads \<open>table ! down\<close> and \<open>table ! up\<close> are in range.
\<close>

fun fcdf_loop :: "rounding \<Rightarrow> real list \<Rightarrow> real \<Rightarrow> nat list \<Rightarrow> error + real" where
  "fcdf_loop rnd table f [] = Inl (Exception ''Couldn't find an alpha value for F.'')"
| "fcdf_loop rnd table f (i # rest) =
     (let down = i; up = i + 1
      in if f \<le> table ! down \<and> table ! up \<le> f
         then linear_regression rnd
                (table ! down, F_TABLE_ALPHA rnd ! down) (table ! up, F_TABLE_ALPHA rnd ! up) f
         else fcdf_loop rnd table f rest)"

definition fcdf :: "rounding \<Rightarrow> real \<Rightarrow> int \<Rightarrow> error + real" where
  "fcdf rnd f freedom =
     (case map_of (F_TABLE rnd) freedom of
        None \<Rightarrow> Inl KeyError
      | Some table \<Rightarrow>
          if table ! 0 < f then Inr (rnd (1 / 1000))
          else if f < last table then Inr (rnd (2 / 10))
          else fcdf_loop rnd table f [0 ..< length table - 1])"

definition INV_T_TABLE_FREEDOM :: "int list" where
  "INV_T_TABLE_FREEDOM = [8, 18, 25, 30, 60, 120]"

definition INV_T_TABLE :: "rounding \<Rightarrow> (real \<times> real list) list" where
  "INV_T_TABLE rnd = map (\<lambda>(a, row). (rnd a, map rnd row))
     [(5 / 1000, [3355 / 1000, 2878 / 1000, 2787 / 1000, 2750 / 1000, 2660 / 1000, 2617 / 1000]),
      (1 / 100, [2896 / 1000, 2552 / 1000, 2485 / 1000, 2457 / 1000, 2390 / 1000, 2358 / 1000]),
      (25 / 1000, [2306 / 1000, 2101 / 1000, 2060 / 1000, 2042 / 1000, 2000 / 1000, 1980 / 1000]),
      (5 / 100, [1860 / 1000, 1734 / 1000, 1708 / 1000, 1697 / 1000, 1671 / 1000, 1658 / 1000]),
      (1 / 10, [1397 / 1000, 1330 / 1000, 1316 / 1000, 1310 / 1000, 1296 / 1000, 1289 / 1000])]"

fun invt_loop :: "rounding \<Rightarrow> real list \<Rightarrow> real \<Rightarrow> nat list \<Rightarrow> error + real" where
  "invt_loop rnd table freedom [] = Inl (Exception ''Couldn't find a t-value for freedom.'')"
| "invt_loop rnd table freedom (i # rest) =
     (let down = i; up = i + 1
      in if of_int (INV_T_TABLE_FREEDOM ! down) \<le> freedom
            \<and> freedom \<le> of_int (INV_T_TABLE_FREEDOM ! up)
         then linear_regression rnd
                (of_int (INV_T_TABLE_FREEDOM ! down), table ! down)
                (of_int (INV_T_TABLE_FREEDOM ! up), table ! up) freedom
         else invt_loop rnd table freedom rest)"

definition invt :: "rounding \<Rightarrow> real \<Rightarrow> real \<Rightarrow> error + real" where
  "invt rnd a freedom =
     (case map_of (INV_T_TABLE rnd) a of
        None \<Rightarrow> Inl KeyError
      | Some table \<Rightarrow> invt_loop rnd table freedom [0 ..< length table - 1])"

subsection \<open>\<^verbatim>\<open>timing.py\<close>: the significance test\<close>

text \<open>The approximate p-value \<open>ap\<close> of the variance-ratio test (lines 126 to 130).\<close>

definition calc_ap :: "rounding \<Rightarrow> Timing \<Rightarrow> Timing \<Rightarrow> int \<Rightarrow> error + real" where
  "calc_ap rnd new old n =
     bind (fdiv rnd (variance old) (variance new)) (\<lambda>f.
       if 1 \<le> f
       then bind (fcdf rnd f (n - 1)) (\<lambda>p. Inr (fmul rnd 2 p))
       else bind (fdiv rnd 1 f) (\<lambda>g.
            bind (fcdf rnd g (n - 1)) (\<lambda>p. Inr (fmul rnd 2 p))))"

text \<open>The equal-variance branch (lines 133 to 137): the statistic \<open>t\<close> and its critical value.\<close>

definition pooled_branch ::
  "rounding \<Rightarrow> Timing \<Rightarrow> Timing \<Rightarrow> int \<Rightarrow> real \<Rightarrow> error + real \<times> real" where
  "pooled_branch rnd new old n a =
     bind (fdiv rnd (fadd rnd (fmul rnd (of_int (n - 1)) (variance old))
                              (fmul rnd (of_int (n - 1)) (variance new)))
                    (of_int (2 * n - 2))) (\<lambda>q.
     bind (fsqrt rnd q) (\<lambda>sp.
     bind (fdiv rnd 2 (of_int n)) (\<lambda>r.
     bind (fsqrt rnd r) (\<lambda>s.
     bind (fdiv rnd (fsub rnd (average old) (average new)) (fmul rnd sp s)) (\<lambda>t.
     bind (invt rnd a (of_int (n * 2 - 2))) (\<lambda>t_value.
     Inr (t, t_value)))))))"

text \<open>The unequal-variance branch (lines 139 to 146): Welch's freedom \<open>v\<close>, then \<open>t\<close>.\<close>

definition welch_v :: "rounding \<Rightarrow> Timing \<Rightarrow> Timing \<Rightarrow> int \<Rightarrow> error + real" where
  "welch_v rnd new old n =
     bind (fdiv rnd (variance old) (of_int n)) (\<lambda>vo.
     bind (fdiv rnd (variance new) (of_int n)) (\<lambda>vn.
     bind (fdiv rnd (fsquare rnd vo) (of_int (n - 1))) (\<lambda>d1.
     bind (fdiv rnd (fsquare rnd vn) (of_int (n - 1))) (\<lambda>d2.
     fdiv rnd (fsquare rnd (fadd rnd vo vn)) (fadd rnd d1 d2)))))"

definition welch_branch ::
  "rounding \<Rightarrow> Timing \<Rightarrow> Timing \<Rightarrow> int \<Rightarrow> real \<Rightarrow> error + real \<times> real" where
  "welch_branch rnd new old n a =
     bind (welch_v rnd new old n) (\<lambda>v.
     bind (fdiv rnd (variance old) (of_int n)) (\<lambda>vo.
     bind (fdiv rnd (variance new) (of_int n)) (\<lambda>vn.
     bind (fsqrt rnd (fadd rnd vo vn)) (\<lambda>s.
     bind (fdiv rnd (fsub rnd (average old) (average new)) s) (\<lambda>t.
     bind (fdiv rnd a 2) (\<lambda>a2.
     bind (invt rnd a2 v) (\<lambda>t_value.
     Inr (t, t_value))))))))"

definition calc_timing_diff ::
  "rounding \<Rightarrow> Timing \<Rightarrow> Timing \<Rightarrow> int \<Rightarrow> real \<Rightarrow> error + TimingDiff" where
  "calc_timing_diff rnd new old n a =
     bind (calc_ap rnd new old n) (\<lambda>ap.
     bind (if rnd (2 / 10) \<le> ap then pooled_branch rnd new old n a
           else welch_branch rnd new old n a) (\<lambda>(t, t_value).
       let reject = (t_value \<le> t \<or> t \<le> - t_value)
       in Inr \<lparr>average_diff = fsub rnd (average new) (average old),
               negligible = \<not> reject\<rparr>))"

text \<open>The default significance level of \<open>calc_timing_diff\<close>: the literal \<^verbatim>\<open>0.05\<close>.\<close>

definition default_a :: "rounding \<Rightarrow> real" where
  "default_a rnd = rnd (5 / 100)"

subsection \<open>\<^verbatim>\<open>core/__init__.py\<close>: benchmark results and their comparison\<close>

record BenchmarkResult =
  queries :: Queries
  timing :: Timing

definition BenchmarkResult_result_type :: "BenchmarkResult \<Rightarrow> error + ResultType" where
  "BenchmarkResult_result_type self =
     merge (Queries_result_type (queries self)) (Timing_result_type (timing self))"

text \<open>
  A Python \<^verbatim>\<open>dict\<close> is an association list in insertion order whose keys are distinct;
  the assignment \<^verbatim>\<open>d[k] = v\<close> is \<open>AList.update k v d\<close>, which replaces the value of a
  key in place and appends a new key at the end, and \<^verbatim>\<open>k in d\<close> and \<^verbatim>\<open>d[k]\<close> read
  \<open>map_of d k\<close>.
\<close>

type_synonym benchmarks = "(string \<times> BenchmarkResult) list"

type_synonym results = "(string \<times> benchmarks) list"

text \<open>
  The inner loop of \<open>compare_results\<close> (lines 209 to 229) over the items of one case of
  the new run; \<open>acc\<close> is \<^verbatim>\<open>comparison[case]\<close>. An exception of \<open>calc_timing_diff\<close> leaves
  the function.
\<close>

fun compare_benchmarks ::
  "rounding \<Rightarrow> benchmarks \<Rightarrow> int \<Rightarrow> benchmarks \<Rightarrow> benchmarks \<Rightarrow> error + benchmarks" where
  "compare_benchmarks rnd benchmarks_b n [] acc = Inr acc"
| "compare_benchmarks rnd benchmarks_b n ((bench_name, result) # rest) acc =
     (case map_of benchmarks_b bench_name of
        None \<Rightarrow> compare_benchmarks rnd benchmarks_b n rest (AList.update bench_name result acc)
      | Some result_b \<Rightarrow>
          let queries' =
                \<lparr>qvalue = qvalue (queries result),
                 captured_queries = captured_queries (queries result),
                 qdiff = Some (fsub rnd (qvalue (queries result)) (qvalue (queries result_b)))\<rparr>
          in bind (calc_timing_diff rnd (timing result) (timing result_b) n (default_a rnd))
               (\<lambda>timing_diff.
                  let timing' =
                        \<lparr>average = average (timing result),
                         stdev = stdev (timing result),
                         variance = variance (timing result),
                         tdiff = Some timing_diff\<rparr>
                  in compare_benchmarks rnd benchmarks_b n rest
                       (AList.update bench_name \<lparr>queries = queries', timing = timing'\<rparr> acc)))"

text \<open>The outer loop (lines 202 to 207) over the items of the new run.\<close>

fun compare_cases ::
  "rounding \<Rightarrow> results \<Rightarrow> int \<Rightarrow> results \<Rightarrow> results \<Rightarrow> error + results" where
  "compare_cases rnd b n [] comparison = Inr comparison"
| "compare_cases rnd b n ((case_name, benchmarks) # rest) comparison =
     (case map_of b case_name of
        None \<Rightarrow> compare_cases rnd b n rest (AList.update case_name benchmarks comparison)
      | Some benchmarks_b \<Rightarrow>
          bind (compare_benchmarks rnd benchmarks_b n benchmarks []) (\<lambda>compared.
            compare_cases rnd b n rest (AList.update case_name compared comparison)))"

definition compare_results :: "rounding \<Rightarrow> results \<Rightarrow> results \<Rightarrow> int \<Rightarrow> error + results" where
  "compare_results rnd a b n = compare_cases rnd b n a []"

subsection \<open>\<^verbatim>\<open>core/__init__.py\<close>: persistence\<close>

text \<open>
  \<^verbatim>\<open>json.dump\<close> and \<^verbatim>\<open>json.load\<close> belong to the standard library. The content of the
  file is modelled by the JSON document they exchange: \<open>write_output\<close> yields the document
  it hands to \<^verbatim>\<open>json.dump\<close>, and \<open>load_results\<close> starts from the document \<^verbatim>\<open>json.load\<close>
  returns, taken to be the one written (CPython prints a finite float as the shortest
  decimal that reads back as the same float). The keys of an object are distinct.
\<close>

datatype json =
    JNull
  | JBool bool
  | JNumber real
  | JString string
  | JArray "json list"
  | JObject "(string \<times> json) list"

text \<open>\<^verbatim>\<open>dataclasses.asdict\<close>: the fields in declaration order, nested dataclasses included.\<close>

definition asdict_Queries :: "Queries \<Rightarrow> json" where
  "asdict_Queries q =
     JObject
       [(''value'', JNumber (qvalue q)),
        (''captured_queries'',
           JArray (map (\<lambda>d. JObject (map (\<lambda>(k, v). (k, JString v)) d)) (captured_queries q))),
        (''diff'', case qdiff q of None \<Rightarrow> JNull | Some d \<Rightarrow> JNumber d)]"

definition asdict_TimingDiff :: "TimingDiff \<Rightarrow> json" where
  "asdict_TimingDiff d =
     JObject [(''average_diff'', JNumber (average_diff d)), (''negligible'', JBool (negligible d))]"

definition asdict_Timing :: "Timing \<Rightarrow> json" where
  "asdict_Timing t =
     JObject
       [(''average'', JNumber (average t)),
        (''stdev'', JNumber (stdev t)),
        (''variance'', JNumber (variance t)),
        (''diff'', case tdiff t of None \<Rightarrow> JNull | Some d \<Rightarrow> asdict_TimingDiff d)]"

definition asdict :: "BenchmarkResult \<Rightarrow> json" where
  "asdict r = JObject [(''queries'', asdict_Queries (queries r)), (''timing'', asdict_Timing (timing r))]"

text \<open>
  In the model every value of a result is serialisable, so the \<^verbatim>\<open>except\<close> branch of
  \<open>write_output\<close> is never entered.
\<close>

definition write_output :: "results \<Rightarrow> json" where
  "write_output data =
     JObject (map (\<lambda>(case_name, benchmarks).
                (case_name, JObject (map (\<lambda>(bench, bench_result). (bench, asdict bench_result))
                                        benchmarks)))
              data)"

text \<open>
  \<^verbatim>\<open>d[k]\<close> on a loaded document: \<^verbatim>\<open>KeyError\<close> for a missing key, \<^verbatim>\<open>TypeError\<close> when
  \<open>d\<close> is not an object. Python stores the value it finds unchecked; the typed records
  hold numbers only, so \<open>as_float\<close> reports \<^verbatim>\<open>TypeError\<close> for any other value.
\<close>

definition getitem :: "json \<Rightarrow> string \<Rightarrow> error + json" where
  "getitem d k =
     (case d of
        JObject kvs \<Rightarrow> (case map_of kvs k of None \<Rightarrow> Inl KeyError | Some v \<Rightarrow> Inr v)
      | _ \<Rightarrow> Inl TypeError)"

definition as_float :: "json \<Rightarrow> error + real" where
  "as_float j = (case j of JNumber x \<Rightarrow> Inr x | _ \<Rightarrow> Inl TypeError)"

definition Queries_from_dict :: "json \<Rightarrow> error + Queries" where
  "Queries_from_dict d =
     bind (bind (getitem d ''value'') as_float) (\<lambda>v.
       Inr \<lparr>qvalue = v, captured_queries = [], qdiff = None\<rparr>)"

definition Timing_from_dict :: "json \<Rightarrow> error + Timing" where
  "Timing_from_dict d =
     bind (bind (getitem d ''average'') as_float) (\<lambda>av.
     bind (bind (getitem d ''stdev'') as_float) (\<lambda>sd.
     bind (bind (getitem d ''variance'') as_float) (\<lambda>var.
       Inr \<lparr>average = av, stdev = sd, variance = var, tdiff = None\<rparr>)))"

definition BenchmarkResult_from_dict :: "json \<Rightarrow> error + BenchmarkResult" where
  "BenchmarkResult_from_dict d =
     bind (bind (getitem d ''queries'') Queries_from_dict) (\<lambda>q.
     bind (bind (getitem d ''timing'') Timing_from_dict) (\<lambda>t.
       Inr \<lparr>queries = q, timing = t\<rparr>))"

text \<open>\<^verbatim>\<open>d.items()\<close>, which only an object has.\<close>

definition items :: "json \<Rightarrow> error + (string \<times> json) list" where
  "items d = (case d of JObject kvs \<Rightarrow> Inr kvs | _ \<Rightarrow> Inl AttributeError)"

text \<open>A dictionary comprehension over items whose values may raise.\<close>

fun dict_comprehension :: "('v \<Rightarrow> error + 'w) \<Rightarrow> (string \<times> 'v) list \<Rightarrow> error + (string \<times> 'w) list" where
  "dict_comprehension g [] = Inr []"
| "dict_comprehension g ((k, v) # rest) =
     bind (g v) (\<lambda>w. bind (dict_comprehension g rest) (\<lambda>ws. Inr ((k, w) # ws)))"

text \<open>Any exception while loading prints a message and exits with status 1.\<close>

definition load_results :: "json \<Rightarrow> error + results" where
  "load_results doc =
     (case bind (items doc) (dict_comprehension (\<lambda>benchmarks.
             bind (items benchmarks) (dict_comprehension BenchmarkResult_from_dict))) of
        Inl e \<Rightarrow> Inl (SystemExit 1)
      | Inr loaded \<Rightarrow> Inr loaded)"

text \<open>
  What the specification says a reload reconstructs: the aggregate values, with both
  \<^verbatim>\<open>diff\<close> fields \<open>None\<close> and no captured queries.
\<close>

definition spec_reloaded :: "BenchmarkResult \<Rightarrow> BenchmarkResult" where
  "spec_reloaded r =
     \<lparr>queries = \<lparr>qvalue = qvalue (queries r), captured_queries = [], qdiff = None\<rparr>,
      timing = \<lparr>average = average (timing r), stdev = stdev (timing r),
                variance = variance (timing r), tdiff = None\<rparr>\<rparr>"

section \<open>Properties\<close>

subsection \<open>Merge of verdicts\<close>

lemma index_PRECEDENCE: "index PRECEDENCE v = Inr (spec_rank v)"
  by (cases v) (simp_all add: PRECEDENCE_def bind_def)

lemma spec_rank_inj: "spec_rank v1 = spec_rank v2 \<Longrightarrow> v1 = v2"
  by (cases v1; cases v2) simp_all

text \<open>
  Claim C2. For every ordered pair of verdicts, \<open>merge\<close> returns (never raises): it yields
  \<open>MIXED\<close> when the pair is exactly \<open>{REGRESSION, IMPROVEMENT}\<close> in either order, and
  otherwise whichever of the two ranks first in the precedence order
  \<open>MIXED > REGRESSION > IMPROVEMENT > UNCHANGED > NO_PREVIOUS_DATA\<close>; equal verdicts return
  that verdict.
\<close>

theorem merge_precedence: "merge v1 v2 = Inr (spec_merge v1 v2)"
proof (cases "{v1, v2} = {REGRESSION, IMPROVEMENT}")
  case True
  then have "(v1 = REGRESSION \<and> v2 = IMPROVEMENT) \<or> (v1 = IMPROVEMENT \<and> v2 = REGRESSION)"
    by (auto simp: doubleton_eq_iff)
  with True show ?thesis
    by (auto simp: merge_def spec_merge_def)
next
  case False
  then have neg: "\<not> ((v1 = REGRESSION \<and> v2 = IMPROVEMENT) \<or> (v1 = IMPROVEMENT \<and> v2 = REGRESSION))"
    by auto
  have "merge v1 v2 = Inr (if spec_rank v1 \<le> spec_rank v2 then v1 else v2)"
    using neg by (simp add: merge_def index_PRECEDENCE bind_def)
  also have "(if spec_rank v1 \<le> spec_rank v2 then v1 else v2) = spec_merge v1 v2"
    using False by (auto simp: spec_merge_def dest: spec_rank_inj)
  finally show ?thesis .
qed

subsection \<open>Rounding\<close>

lemma binary64_zero: "binary64 0 = 0"
  by (simp add: binary64_def)

lemma exact_zero: "exact 0 = 0"
  by (simp add: exact_def)

subsection \<open>The F-table lookup\<close>

lemma F_TABLE_keys:
  "map fst (F_TABLE rnd) = [4, 5, 6, 7, 8, 9, 10, 12, 15, 20, 24, 30, 40, 60, 120]"
  by (simp add: F_TABLE_def)

lemma F_TABLE_miss:
  assumes "freedom \<notin> {4, 5, 6, 7, 8, 9, 10, 12, 15, 20, 24, 30, 40, 60, 120}"
  shows "map_of (F_TABLE rnd) freedom = None"
proof -
  have "freedom \<notin> set (map fst (F_TABLE rnd))"
    using assms unfolding F_TABLE_keys by simp
  then show ?thesis
    by (simp add: map_of_eq_None_iff)
qed

text \<open>
  Claim C3, as the code has it. The row of the F-table is selected by exact key: for every
  degrees of freedom that is not one of the fifteen tabulated keys (also inside the
  covered range, such as 11) \<open>fcdf\<close> raises \<^verbatim>\<open>KeyError\<close>, whatever the statistic \<open>f\<close> and
  the rounding. No interpolation between rows takes place.
\<close>

theorem fcdf_untabulated_freedom:
  "freedom \<notin> {4, 5, 6, 7, 8, 9, 10, 12, 15, 20, 24, 30, 40, 60, 120}
   \<Longrightarrow> fcdf rnd f freedom = Inl KeyError"
  by (simp add: fcdf_def F_TABLE_miss)

theorem fcdf_untabulated_freedom_witness:
  "(11::int) \<notin> {4, 5, 6, 7, 8, 9, 10, 12, 15, 20, 24, 30, 40, 60, 120}
   \<and> fcdf exact 3 11 = Inl KeyError"
  using fcdf_untabulated_freedom [of 11 exact 3] by simp

text \<open>
  The claim as stated fails at degrees of freedom 11 (sample size 12): the lookup of a
  statistic inside the range of the neighbouring rows does not succeed.
\<close>

theorem fcdf_freedom_11_counterexample: "fcdf binary64 3 11 = Inl KeyError"
  by (simp add: fcdf_def F_TABLE_miss)

subsection \<open>Division by zero in the variance ratio\<close>

text \<open>
  Claim C6. For every pair of timing samples where the new variance is zero,
  \<open>calc_timing_diff\<close> fails with \<^verbatim>\<open>ZeroDivisionError\<close>, raised by the variance ratio
  \<open>old.variance / new.variance\<close>, and produces no \<open>TimingDiff\<close>; this holds for every old
  sample, sample size, significance level and rounding.
\<close>

theorem calc_timing_diff_new_variance_zero:
  "variance new = 0
   \<Longrightarrow> fdiv rnd (variance old) (variance new) = Inl ZeroDivisionError
     \<and> calc_timing_diff rnd new old n a = Inl ZeroDivisionError"
  by (simp add: calc_timing_diff_def calc_ap_def fdiv_def bind_def)

theorem calc_timing_diff_new_variance_zero_witness:
  "variance \<lparr>average = 1, stdev = 0, variance = 0, tdiff = None\<rparr> = 0
   \<and> calc_timing_diff binary64
        \<lparr>average = 1, stdev = 0, variance = 0, tdiff = None\<rparr>
        \<lparr>average = 1, stdev = 1 / 2, variance = 1 / 4, tdiff = None\<rparr> 61 (default_a binary64)
       = Inl ZeroDivisionError"
  using calc_timing_diff_new_variance_zero
    [of "\<lparr>average = 1, stdev = 0, variance = 0, tdiff = None\<rparr>" binary64
        "\<lparr>average = 1, stdev = 1 / 2, variance = 1 / 4, tdiff = None\<rparr>" 61 "default_a binary64"]
  by simp

text \<open>
  Claim C9. For every pair of timing samples where the old variance is zero and the new
  variance is positive, \<open>calc_timing_diff\<close> fails with \<^verbatim>\<open>ZeroDivisionError\<close> too: the
  variance ratio \<open>f\<close> is 0, the test \<open>f \<ge> 1\<close> fails, and the code divides 1 by \<open>f\<close>. This
  holds for every rounding that maps 0 to 0, as \<open>exact\<close> and \<open>binary64\<close> do.
\<close>

theorem calc_timing_diff_old_variance_zero:
  "variance old = 0 \<Longrightarrow> 0 < variance new \<Longrightarrow> rnd 0 = 0
   \<Longrightarrow> fdiv rnd (variance old) (variance new) = Inr 0
     \<and> fdiv rnd 1 0 = Inl ZeroDivisionError
     \<and> calc_timing_diff rnd new old n a = Inl ZeroDivisionError"
  by (simp add: calc_timing_diff_def calc_ap_def fdiv_def bind_def)

theorem calc_timing_diff_old_variance_zero_witness:
  "variance \<lparr>average = 1, stdev = 0, variance = 0, tdiff = None\<rparr> = 0
   \<and> 0 < variance \<lparr>average = 1, stdev = 1 / 2, variance = 1 / 4, tdiff = None\<rparr>
   \<and> binary64 0 = 0
   \<and> calc_timing_diff binary64
        \<lparr>average = 1, stdev = 1 / 2, variance = 1 / 4, tdiff = None\<rparr>
        \<lparr>average = 1, stdev = 0, variance = 0, tdiff = None\<rparr> 61 (default_a binary64)
       = Inl ZeroDivisionError"
  using calc_timing_diff_old_variance_zero
    [of "\<lparr>average = 1, stdev = 0, variance = 0, tdiff = None\<rparr>"
        "\<lparr>average = 1, stdev = 1 / 2, variance = 1 / 4, tdiff = None\<rparr>" binary64 61
        "default_a binary64"]
  by (simp add: binary64_zero)

subsection \<open>Persistence round trip\<close>

lemma bind_Inr: "bind (Inr v) f = f v"
  by (simp add: bind_def)

lemma bind_Inl: "bind (Inl e) f = Inl e"
  by (simp add: bind_def)

lemma items_JObject: "items (JObject kvs) = Inr kvs"
  by (simp add: items_def)

lemma from_dict_asdict: "BenchmarkResult_from_dict (asdict r) = Inr (spec_reloaded r)"
  by (simp add: BenchmarkResult_from_dict_def asdict_def getitem_def bind_def
      Queries_from_dict_def asdict_Queries_def Timing_from_dict_def asdict_Timing_def
      as_float_def spec_reloaded_def)

lemma load_benchmarks_written:
  "dict_comprehension BenchmarkResult_from_dict (map (\<lambda>(bench, r). (bench, asdict r)) bs)
   = Inr (map (\<lambda>(bench, r). (bench, spec_reloaded r)) bs)"
  by (induction bs) (auto simp: bind_def from_dict_asdict)

lemma load_cases_written:
  "dict_comprehension
     (\<lambda>benchmarks. bind (items benchmarks) (dict_comprehension BenchmarkResult_from_dict))
     (map (\<lambda>(c, bs). (c, JObject (map (\<lambda>(bench, r). (bench, asdict r)) bs))) data)
   = Inr (map (\<lambda>(c, bs). (c, map (\<lambda>(bench, r). (bench, spec_reloaded r)) bs)) data)"
  by (induction data) (auto simp: bind_Inr items_JObject load_benchmarks_written)

text \<open>
  Claim C8. For every result mapping, and so for every \<open>BenchmarkResult\<close> in it, writing it
  with \<open>write_output\<close> and loading the document with \<open>load_results\<close> succeeds and yields
  the same cases and benchmarks in the same order, each result reconstructed with its
  timing average, standard deviation and variance and its cost value unchanged, with the
  timing \<^verbatim>\<open>diff\<close> and the query \<^verbatim>\<open>diff\<close> equal to \<open>None\<close> and with no captured queries
  (the list-typed field holds the empty list).
\<close>

theorem load_results_write_output:
  "load_results (write_output data)
     = Inr (map (\<lambda>(case_name, benchmarks).
                   (case_name, map (\<lambda>(bench, r). (bench, spec_reloaded r)) benchmarks)) data)
   \<and> average (timing (spec_reloaded r)) = average (timing r)
   \<and> stdev (timing (spec_reloaded r)) = stdev (timing r)
   \<and> variance (timing (spec_reloaded r)) = variance (timing r)
   \<and> qvalue (queries (spec_reloaded r)) = qvalue (queries r)
   \<and> tdiff (timing (spec_reloaded r)) = None
   \<and> qdiff (queries (spec_reloaded r)) = None
   \<and> captured_queries (queries (spec_reloaded r)) = []"
  by (simp add: load_results_def write_output_def items_JObject bind_Inr load_cases_written
      spec_reloaded_def)

subsection \<open>The comparison of two runs\<close>

lemma bindE: "bind m f = Inr r \<Longrightarrow> (\<And>v. m = Inr v \<Longrightarrow> f v = Inr r \<Longrightarrow> P) \<Longrightarrow> P"
  by (cases m) (simp_all add: bind_def)

lemma compare_benchmarks_other:
  "compare_benchmarks rnd bb n bs acc = Inr r \<Longrightarrow> k \<notin> fst ` set bs
   \<Longrightarrow> map_of r k = map_of acc k"
proof (induction bs arbitrary: acc)
  case Nil
  then show ?case by simp
next
  case (Cons p bs)
  obtain name res where p: "p = (name, res)" by (cases p)
  from Cons.prems(2) p have nk: "name \<noteq> k" and k: "k \<notin> fst ` set bs" by auto
  show ?case
  proof (cases "map_of bb name")
    case None
    with Cons.prems(1) p
    have "compare_benchmarks rnd bb n bs (AList.update name res acc) = Inr r" by simp
    from Cons.IH [OF this k] nk show ?thesis by (simp add: update_conv')
  next
    case (Some rb)
    with Cons.prems(1) p obtain acc' where
      "compare_benchmarks rnd bb n bs (AList.update name acc' acc) = Inr r"
      by (auto simp: Let_def elim!: bindE)
    from Cons.IH [OF this k] nk show ?thesis by (simp add: update_conv')
  qed
qed

lemma compare_benchmarks_keys:
  "compare_benchmarks rnd bb n bs acc = Inr r \<Longrightarrow> distinct (map fst bs)
   \<Longrightarrow> fst ` set bs \<inter> fst ` set acc = {}
   \<Longrightarrow> map fst r = map fst acc @ map fst bs"
proof (induction bs arbitrary: acc)
  case Nil
  then show ?case by simp
next
  case (Cons p bs)
  obtain name res where p: "p = (name, res)" by (cases p)
  from Cons.prems(2,3) p have fresh: "name \<notin> fst ` set acc" and d: "distinct (map fst bs)"
    and nb: "name \<notin> fst ` set bs" and disj: "fst ` set bs \<inter> fst ` set acc = {}"
    by auto
  have step: "map fst r = map fst acc @ map fst (p # bs)"
    if run: "compare_benchmarks rnd bb n bs (AList.update name v acc) = Inr r" for v
  proof -
    have "fst ` set bs \<inter> fst ` set (AList.update name v acc) = {}"
      using nb disj by (auto simp: dom_update)
    from Cons.IH [OF run d this] fresh p show ?thesis
      by (simp add: update_keys)
  qed
  show ?case
  proof (cases "map_of bb name")
    case None
    with Cons.prems(1) p
    have "compare_benchmarks rnd bb n bs (AList.update name res acc) = Inr r" by simp
    then show ?thesis by (rule step)
  next
    case (Some rb)
    with Cons.prems(1) p obtain v where
      "compare_benchmarks rnd bb n bs (AList.update name v acc) = Inr r"
      by (auto simp: Let_def elim!: bindE)
    then show ?thesis by (rule step)
  qed
qed

lemma compare_benchmarks_passthrough:
  "compare_benchmarks rnd bb n bs acc = Inr r \<Longrightarrow> distinct (map fst bs)
   \<Longrightarrow> (k, res) \<in> set bs \<Longrightarrow> map_of bb k = None
   \<Longrightarrow> map_of r k = Some res"
proof (induction bs arbitrary: acc)
  case Nil
  then show ?case by simp
next
  case (Cons p bs)
  obtain name res' where p: "p = (name, res')" by (cases p)
  from Cons.prems(2) p have d: "distinct (map fst bs)" and nb: "name \<notin> fst ` set bs" by auto
  show ?case
  proof (cases "name = k")
    case True
    with Cons.prems(3) p nb have eq: "res' = res" by (auto simp: image_iff)
    from True Cons.prems(1,4) p eq
    have run: "compare_benchmarks rnd bb n bs (AList.update k res acc) = Inr r" by simp
    from nb True have "k \<notin> fst ` set bs" by simp
    from compare_benchmarks_other [OF run this] show ?thesis by (simp add: update_conv')
  next
    case False
    with Cons.prems(3) p have mem: "(k, res) \<in> set bs" by auto
    show ?thesis
    proof (cases "map_of bb name")
      case None
      with Cons.prems(1) p
      have "compare_benchmarks rnd bb n bs (AList.update name res' acc) = Inr r" by simp
      from Cons.IH [OF this d mem Cons.prems(4)] show ?thesis .
    next
      case (Some rb)
      with Cons.prems(1) p obtain v where
        "compare_benchmarks rnd bb n bs (AList.update name v acc) = Inr r"
        by (auto simp: Let_def elim!: bindE)
      from Cons.IH [OF this d mem Cons.prems(4)] show ?thesis .
    qed
  qed
qed

lemma compare_cases_other:
  "compare_cases rnd b n cs acc = Inr r \<Longrightarrow> k \<notin> fst ` set cs
   \<Longrightarrow> map_of r k = map_of acc k"
proof (induction cs arbitrary: acc)
  case Nil
  then show ?case by simp
next
  case (Cons p cs)
  obtain name bs where p: "p = (name, bs)" by (cases p)
  from Cons.prems(2) p have nk: "name \<noteq> k" and k: "k \<notin> fst ` set cs" by auto
  from Cons.prems(1) p obtain v where
    "compare_cases rnd b n cs (AList.update name v acc) = Inr r"
    by (cases "map_of b name") (auto elim!: bindE)
  from Cons.IH [OF this k] nk show ?case by (simp add: update_conv')
qed

lemma compare_cases_keys:
  "compare_cases rnd b n cs acc = Inr r \<Longrightarrow> distinct (map fst cs)
   \<Longrightarrow> fst ` set cs \<inter> fst ` set acc = {}
   \<Longrightarrow> map fst r = map fst acc @ map fst cs"
proof (induction cs arbitrary: acc)
  case Nil
  then show ?case by simp
next
  case (Cons p cs)
  obtain name bs where p: "p = (name, bs)" by (cases p)
  from Cons.prems(2,3) p have fresh: "name \<notin> fst ` set acc" and d: "distinct (map fst cs)"
    and nb: "name \<notin> fst ` set cs" and disj: "fst ` set cs \<inter> fst ` set acc = {}"
    by auto
  from Cons.prems(1) p obtain v where
    run: "compare_cases rnd b n cs (AList.update name v acc) = Inr r"
    by (cases "map_of b name") (auto elim!: bindE)
  have "fst ` set cs \<inter> fst ` set (AList.update name v acc) = {}"
    using nb disj by (auto simp: dom_update)
  from Cons.IH [OF run d this] fresh p show ?case
    by (simp add: update_keys)
qed

lemma compare_cases_absent:
  "compare_cases rnd b n cs acc = Inr r \<Longrightarrow> distinct (map fst cs) \<Longrightarrow> (c, bs) \<in> set cs
   \<Longrightarrow> map_of b c = None \<Longrightarrow> map_of r c = Some bs"
proof (induction cs arbitrary: acc)
  case Nil
  then show ?case by simp
next
  case (Cons p cs)
  obtain name bs' where p: "p = (name, bs')" by (cases p)
  from Cons.prems(2) p have d: "distinct (map fst cs)" and nb: "name \<notin> fst ` set cs" by auto
  show ?case
  proof (cases "name = c")
    case True
    with Cons.prems(3) p nb have eq: "bs' = bs" by (auto simp: image_iff)
    from nb True have c: "c \<notin> fst ` set cs" by simp
    from True Cons.prems(1,4) p eq
    have "compare_cases rnd b n cs (AList.update c bs acc) = Inr r" by simp
    from compare_cases_other [OF this c] show ?thesis by (simp add: update_conv')
  next
    case False
    with Cons.prems(3) p have mem: "(c, bs) \<in> set cs" by auto
    from Cons.prems(1) p obtain v where
      "compare_cases rnd b n cs (AList.update name v acc) = Inr r"
      by (cases "map_of b name") (auto elim!: bindE)
    from Cons.IH [OF this d mem Cons.prems(4)] show ?thesis .
  qed
qed

lemma compare_cases_shared:
  "compare_cases rnd b n cs acc = Inr r \<Longrightarrow> distinct (map fst cs) \<Longrightarrow> (c, bs) \<in> set cs
   \<Longrightarrow> map_of b c = Some bb
   \<Longrightarrow> \<exists>compared. compare_benchmarks rnd bb n bs [] = Inr compared \<and> map_of r c = Some compared"
proof (induction cs arbitrary: acc)
  case Nil
  then show ?case by simp
next
  case (Cons p cs)
  obtain name bs' where p: "p = (name, bs')" by (cases p)
  from Cons.prems(2) p have d: "distinct (map fst cs)" and nb: "name \<notin> fst ` set cs" by auto
  show ?case
  proof (cases "name = c")
    case True
    with Cons.prems(3) p nb have eq: "bs' = bs" by (auto simp: image_iff)
    from nb True have c: "c \<notin> fst ` set cs" by simp
    from True Cons.prems(1,4) p eq obtain compared where
      cb: "compare_benchmarks rnd bb n bs [] = Inr compared"
      and "compare_cases rnd b n cs (AList.update c compared acc) = Inr r"
      by (auto elim!: bindE)
    from compare_cases_other [OF this(2) c] cb show ?thesis by (simp add: update_conv')
  next
    case False
    with Cons.prems(3) p have mem: "(c, bs) \<in> set cs" by auto
    from Cons.prems(1) p obtain v where
      "compare_cases rnd b n cs (AList.update name v acc) = Inr r"
      by (cases "map_of b name") (auto elim!: bindE)
    from Cons.IH [OF this d mem Cons.prems(4)] show ?thesis .
  qed
qed


lemma no_previous_data_verdict:
  "qdiff (queries r) = None \<Longrightarrow> tdiff (timing r) = None
   \<Longrightarrow> BenchmarkResult_result_type r = Inr NO_PREVIOUS_DATA"
  by (simp add: BenchmarkResult_result_type_def Queries_result_type_def Timing_result_type_def
      merge_def PRECEDENCE_def bind_def)

text \<open>
  Claim C7. Let \<open>a\<close> (the new run) and \<open>b\<close> (the old run) be nested result mappings, that
  is dictionaries with distinct keys, and let \<open>compare_results\<close> return. Then its output
  has exactly the cases of the new run, in their order; a case absent from the old run is
  passed through with its benchmarks unmodified; within a case both runs have, the output
  has exactly the benchmarks of the new case and a benchmark absent from the old case is
  passed through unmodified; and a result whose two \<^verbatim>\<open>diff\<close> fields are \<open>None\<close>, as they
  are in a fresh run and so remain in a result passed through, classifies as
  \<open>NO_PREVIOUS_DATA\<close>.
\<close>

theorem compare_results_frame:
  "distinct (map fst a) \<Longrightarrow> list_all (\<lambda>(c, bs). distinct (map fst bs)) a
   \<Longrightarrow> compare_results rnd a b n = Inr comparison
   \<Longrightarrow> map fst comparison = map fst a
     \<and> (\<forall>c bs. (c, bs) \<in> set a \<and> map_of b c = None \<longrightarrow> map_of comparison c = Some bs)
     \<and> (\<forall>c bs bb k r. (c, bs) \<in> set a \<and> map_of b c = Some bb \<and> (k, r) \<in> set bs
            \<and> map_of bb k = None
          \<longrightarrow> (\<exists>compared. map_of comparison c = Some compared
                 \<and> map fst compared = map fst bs \<and> map_of compared k = Some r))
     \<and> (\<forall>r. qdiff (queries r) = None \<and> tdiff (timing r) = None
          \<longrightarrow> BenchmarkResult_result_type r = Inr NO_PREVIOUS_DATA)"
proof (intro conjI allI impI)
  assume d: "distinct (map fst a)"
    and di: "list_all (\<lambda>(c, bs). distinct (map fst bs)) a"
    and run: "compare_results rnd a b n = Inr comparison"
  from run have cc: "compare_cases rnd b n a [] = Inr comparison"
    by (simp add: compare_results_def)
  from compare_cases_keys [OF cc d] show "map fst comparison = map fst a" by simp
  {
    fix c bs
    assume "(c, bs) \<in> set a \<and> map_of b c = None"
    then show "map_of comparison c = Some bs"
      using compare_cases_absent [OF cc d] by blast
  }
  {
    fix c bs bb k r
    assume h: "(c, bs) \<in> set a \<and> map_of b c = Some bb \<and> (k, r) \<in> set bs \<and> map_of bb k = None"
    then obtain compared where cb: "compare_benchmarks rnd bb n bs [] = Inr compared"
      and m: "map_of comparison c = Some compared"
      using compare_cases_shared [OF cc d] by blast
    from h di have dbs: "distinct (map fst bs)"
      by (auto simp: list_all_iff)
    from compare_benchmarks_keys [OF cb dbs] have "map fst compared = map fst bs" by simp
    moreover from compare_benchmarks_passthrough [OF cb dbs] h
    have "map_of compared k = Some r" by blast
    ultimately show "\<exists>compared. map_of comparison c = Some compared
        \<and> map fst compared = map fst bs \<and> map_of compared k = Some r"
      using m by blast
  }
next
  fix r :: BenchmarkResult
  assume "qdiff (queries r) = None \<and> tdiff (timing r) = None"
  then show "BenchmarkResult_result_type r = Inr NO_PREVIOUS_DATA"
    by (simp add: no_previous_data_verdict)
qed


lemmas arith_defs = fadd_def fsub_def fmul_def fdiv_def fsquare_def fsqrt_def

lemma sqrt_quarter: "sqrt (1 / 4) = 1 / 2"
  by (simp add: real_sqrt_divide)

lemmas calc_timing_diff_eval =
  calc_timing_diff_def default_a_def calc_ap_def pooled_branch_def welch_branch_def welch_v_def
  fcdf_def F_TABLE_def F_TABLE_ALPHA_def invt_def INV_T_TABLE_def INV_T_TABLE_FREEDOM_def
  linear_regression_def bind_def arith_defs upt_rec [of 0 5] upt_rec [of 0 3]

theorem compare_results_frame_witness:
  "compare_results exact
     [(''app.CaseA'', [(''bench_x'', \<lparr>queries = \<lparr>qvalue = 3, captured_queries = [], qdiff = None\<rparr>, timing = \<lparr>average = 1, stdev = 2, variance = 4, tdiff = None\<rparr>\<rparr>)]),
      (''app.CaseB'', [(''bench_y'', \<lparr>queries = \<lparr>qvalue = 3, captured_queries = [], qdiff = None\<rparr>, timing = \<lparr>average = 1, stdev = 2, variance = 4, tdiff = None\<rparr>\<rparr>), (''bench_z'', \<lparr>queries = \<lparr>qvalue = 3, captured_queries = [], qdiff = None\<rparr>, timing = \<lparr>average = 1, stdev = 2, variance = 4, tdiff = None\<rparr>\<rparr>)])]
     [(''app.CaseB'', [(''bench_y'', \<lparr>queries = \<lparr>qvalue = 3, captured_queries = [], qdiff = None\<rparr>, timing = \<lparr>average = 1, stdev = 2, variance = 4, tdiff = None\<rparr>\<rparr>)])] 8
   = Inr [(''app.CaseA'', [(''bench_x'', \<lparr>queries = \<lparr>qvalue = 3, captured_queries = [], qdiff = None\<rparr>, timing = \<lparr>average = 1, stdev = 2, variance = 4, tdiff = None\<rparr>\<rparr>)]),
      (''app.CaseB'', [(''bench_y'', \<lparr>queries = \<lparr>qvalue = 3, captured_queries = [], qdiff = Some 0\<rparr>, timing = \<lparr>average = 1, stdev = 2, variance = 4, tdiff = Some \<lparr>average_diff = 0, negligible = True\<rparr>\<rparr>\<rparr>), (''bench_z'', \<lparr>queries = \<lparr>qvalue = 3, captured_queries = [], qdiff = None\<rparr>, timing = \<lparr>average = 1, stdev = 2, variance = 4, tdiff = None\<rparr>\<rparr>)])]
   \<and> map_of [(''app.CaseA'', [(''bench_x'', \<lparr>queries = \<lparr>qvalue = 3, captured_queries = [], qdiff = None\<rparr>, timing = \<lparr>average = 1, stdev = 2, variance = 4, tdiff = None\<rparr>\<rparr>)]),
      (''app.CaseB'', [(''bench_y'', \<lparr>queries = \<lparr>qvalue = 3, captured_queries = [], qdiff = Some 0\<rparr>, timing = \<lparr>average = 1, stdev = 2, variance = 4, tdiff = Some \<lparr>average_diff = 0, negligible = True\<rparr>\<rparr>\<rparr>), (''bench_z'', \<lparr>queries = \<lparr>qvalue = 3, captured_queries = [], qdiff = None\<rparr>, timing = \<lparr>average = 1, stdev = 2, variance = 4, tdiff = None\<rparr>\<rparr>)])] ''app.CaseA''
     = Some [(''bench_x'', \<lparr>queries = \<lparr>qvalue = 3, captured_queries = [], qdiff = None\<rparr>, timing = \<lparr>average = 1, stdev = 2, variance = 4, tdiff = None\<rparr>\<rparr>)]
   \<and> (\<exists>compared. map_of [(''app.CaseA'', [(''bench_x'', \<lparr>queries = \<lparr>qvalue = 3, captured_queries = [], qdiff = None\<rparr>, timing = \<lparr>average = 1, stdev = 2, variance = 4, tdiff = None\<rparr>\<rparr>)]),
      (''app.CaseB'', [(''bench_y'', \<lparr>queries = \<lparr>qvalue = 3, captured_queries = [], qdiff = Some 0\<rparr>, timing = \<lparr>average = 1, stdev = 2, variance = 4, tdiff = Some \<lparr>average_diff = 0, negligible = True\<rparr>\<rparr>\<rparr>), (''bench_z'', \<lparr>queries = \<lparr>qvalue = 3, captured_queries = [], qdiff = None\<rparr>, timing = \<lparr>average = 1, stdev = 2, variance = 4, tdiff = None\<rparr>\<rparr>)])] ''app.CaseB'' = Some compared
        \<and> map fst compared = [''bench_y'', ''bench_z'']
        \<and> map_of compared ''bench_z'' = Some \<lparr>queries = \<lparr>qvalue = 3, captured_queries = [], qdiff = None\<rparr>, timing = \<lparr>average = 1, stdev = 2, variance = 4, tdiff = None\<rparr>\<rparr>)
   \<and> BenchmarkResult_result_type \<lparr>queries = \<lparr>qvalue = 3, captured_queries = [], qdiff = None\<rparr>, timing = \<lparr>average = 1, stdev = 2, variance = 4, tdiff = None\<rparr>\<rparr> = Inr NO_PREVIOUS_DATA"
proof -
  let ?r = "\<lparr>queries = \<lparr>qvalue = 3, captured_queries = [], qdiff = None\<rparr>, timing = \<lparr>average = 1, stdev = 2, variance = 4, tdiff = None\<rparr>\<rparr>"
  let ?A = "[(''app.CaseA'', [(''bench_x'', ?r)]), (''app.CaseB'', [(''bench_y'', ?r), (''bench_z'', ?r)])]"
  let ?B = "[(''app.CaseB'', [(''bench_y'', ?r)])]"
  let ?C = "[(''app.CaseA'', [(''bench_x'', \<lparr>queries = \<lparr>qvalue = 3, captured_queries = [], qdiff = None\<rparr>, timing = \<lparr>average = 1, stdev = 2, variance = 4, tdiff = None\<rparr>\<rparr>)]),
      (''app.CaseB'', [(''bench_y'', \<lparr>queries = \<lparr>qvalue = 3, captured_queries = [], qdiff = Some 0\<rparr>, timing = \<lparr>average = 1, stdev = 2, variance = 4, tdiff = Some \<lparr>average_diff = 0, negligible = True\<rparr>\<rparr>\<rparr>), (''bench_z'', \<lparr>queries = \<lparr>qvalue = 3, captured_queries = [], qdiff = None\<rparr>, timing = \<lparr>average = 1, stdev = 2, variance = 4, tdiff = None\<rparr>\<rparr>)])]"
  have run: "compare_results exact ?A ?B 8 = Inr ?C"
    by (simp add: compare_results_def calc_timing_diff_eval exact_def sqrt_quarter)
  have d1: "distinct (map fst ?A)" by simp
  have d2: "list_all (\<lambda>(c, bs). distinct (map fst bs)) ?A" by simp
  note frame = compare_results_frame [OF d1 d2 run]
  from frame have absent: "map_of ?C ''app.CaseA'' = Some [(''bench_x'', ?r)]"
    by simp
  from frame
  have "\<forall>c bs bb k r. (c, bs) \<in> set ?A \<and> map_of ?B c = Some bb \<and> (k, r) \<in> set bs
            \<and> map_of bb k = None
          \<longrightarrow> (\<exists>compared. map_of ?C c = Some compared
                 \<and> map fst compared = map fst bs \<and> map_of compared k = Some r)"
    by blast
  then have shared: "\<exists>compared. map_of ?C ''app.CaseB'' = Some compared
        \<and> map fst compared = [''bench_y'', ''bench_z'']
        \<and> map_of compared ''bench_z'' = Some ?r"
    by simp
  from frame have verdict: "BenchmarkResult_result_type ?r = Inr NO_PREVIOUS_DATA"
    by simp
  from run absent shared verdict show ?thesis
    by blast
qed

subsection \<open>Properties of \<open>binary64\<close>\<close>

text \<open>
  The exponent brackets its argument, so \<open>binary64\<close> scales the argument into
  \<open>[2 ^ 52, 2 ^ 53)\<close> before rounding it to an integer. \<open>binary64_eqI\<close> evaluates a rounding
  from its exponent and mantissa; \<open>binary64_error\<close> is the relative error bound of round to
  nearest.
\<close>

lemma exponent_bounds:
  assumes "0 < x"
  shows "2 powi (exponent x) \<le> x \<and> x < 2 powi (exponent x + 1)"
proof (cases "1 \<le> x")
  case True
  then have pos: "0 < \<lfloor>x\<rfloor>" by simp
  let ?b = "bitlen \<lfloor>x\<rfloor>"
  from bitlen_bounds [OF pos]
  have lo: "2 ^ nat (?b - 1) \<le> \<lfloor>x\<rfloor>" and hi: "\<lfloor>x\<rfloor> < 2 ^ nat ?b" by auto
  from pos have b1: "1 \<le> ?b" by (auto simp: bitlen_alt_def)
  have e: "exponent x = ?b - 1" using True by (simp add: exponent_def)
  have "(2::real) powi (?b - 1) = 2 ^ nat (?b - 1)"
    using b1 by (simp add: power_int_nonneg_exp)
  also have "\<dots> = of_int (2 ^ nat (?b - 1))" by simp
  also have "\<dots> \<le> of_int \<lfloor>x\<rfloor>" using lo by (simp only: of_int_le_iff)
  also have "\<dots> \<le> x" by simp
  finally have l: "2 powi (?b - 1) \<le> x" .
  from hi have "\<lfloor>x\<rfloor> + 1 \<le> 2 ^ nat ?b" by simp
  then have "of_int (\<lfloor>x\<rfloor> + 1) \<le> (of_int (2 ^ nat ?b) :: real)" by (simp only: of_int_le_iff)
  then have "of_int \<lfloor>x\<rfloor> + 1 \<le> (2::real) ^ nat ?b" by simp
  moreover have "x < of_int \<lfloor>x\<rfloor> + 1" by linarith
  ultimately have "x < 2 ^ nat ?b" by linarith
  also have "(2::real) ^ nat ?b = 2 powi ?b"
    using b1 by (simp add: power_int_nonneg_exp)
  finally have "x < 2 powi (?b - 1 + 1)" by simp
  with l e show ?thesis by simp
next
  case False
  with assms have x1: "x < 1" by simp
  let ?m = "\<lceil>1 / x\<rceil>"
  have y1: "1 < 1 / x" using assms x1 by simp
  then have m2: "2 \<le> ?m" by linarith
  then have pos: "0 < ?m - 1" by simp
  let ?k = "bitlen (?m - 1)"
  from bitlen_bounds [OF pos]
  have lo: "2 ^ nat (?k - 1) \<le> ?m - 1" and hi: "?m - 1 < 2 ^ nat ?k" by auto
  from pos have k1: "1 \<le> ?k" by (auto simp: bitlen_alt_def)
  have e: "exponent x = - ?k" using False by (simp add: exponent_def)
  from hi have "?m \<le> 2 ^ nat ?k" by simp
  then have "of_int ?m \<le> (of_int (2 ^ nat ?k) :: real)" by (simp only: of_int_le_iff)
  then have "of_int ?m \<le> (2::real) ^ nat ?k" by simp
  moreover have "1 / x \<le> of_int ?m" by linarith
  ultimately have "1 / x \<le> 2 ^ nat ?k" by linarith
  then have "1 \<le> 2 ^ nat ?k * x" using assms by (simp add: field_simps)
  then have "1 / 2 ^ nat ?k \<le> x" by (simp add: field_simps)
  moreover have "(2::real) powi (- ?k) = 1 / 2 ^ nat ?k"
    using k1 by (simp add: power_int_minus_divide power_int_nonneg_exp)
  ultimately have l: "2 powi (- ?k) \<le> x" by simp
  have "of_int (2 ^ nat (?k - 1)) \<le> (of_int (?m - 1) :: real)"
    using lo by (simp only: of_int_le_iff)
  then have "(2::real) ^ nat (?k - 1) \<le> of_int ?m - 1" by simp
  moreover have "of_int ?m - 1 < 1 / x" by linarith
  ultimately have "2 ^ nat (?k - 1) < 1 / x" by linarith
  then have "2 ^ nat (?k - 1) * x < 1" using assms by (simp add: field_simps)
  then have "x < 1 / 2 ^ nat (?k - 1)" by (simp add: field_simps)
  moreover have "(2::real) powi (- ?k + 1) = 1 / 2 ^ nat (?k - 1)"
  proof -
    have "(2::real) powi (- ?k + 1) = 2 powi (- (?k - 1))" by simp
    also have "\<dots> = 1 / 2 powi (?k - 1)" by (simp only: power_int_minus_divide)
    also have "\<dots> = 1 / 2 ^ nat (?k - 1)" using k1 by (simp add: power_int_nonneg_exp)
    finally show ?thesis .
  qed
  ultimately have "x < 2 powi (- ?k + 1)" by simp
  with l e show ?thesis by simp
qed

lemma exponent_unique:
  assumes "0 < x" and lo: "2 powi e \<le> x" and hi: "x < 2 powi (e + 1)"
  shows "exponent x = e"
proof -
  let ?e = "exponent x"
  from exponent_bounds [OF assms(1)]
  have lo': "2 powi ?e \<le> x" and hi': "x < 2 powi (?e + 1)" by auto
  have "\<not> e < ?e"
  proof
    assume "e < ?e"
    then have "e + 1 \<le> ?e" by simp
    then have "(2::real) powi (e + 1) \<le> 2 powi ?e" by (intro power_int_increasing) auto
    with lo' hi show False by linarith
  qed
  moreover have "\<not> ?e < e"
  proof
    assume "?e < e"
    then have "?e + 1 \<le> e" by simp
    then have "(2::real) powi (?e + 1) \<le> 2 powi e" by (intro power_int_increasing) auto
    with lo hi' show False by linarith
  qed
  ultimately show ?thesis by simp
qed

lemma round_half_even_eqI:
  assumes "\<bar>y - of_int m\<bar> < 1 / 2"
  shows "round_half_even y = m"
proof -
  let ?f = "\<lfloor>y\<rfloor>"
  have f: "of_int ?f \<le> y" "y < of_int ?f + 1" by linarith+
  show ?thesis
  proof (cases "y - of_int ?f < 1 / 2")
    case True
    with assms f have "of_int m < (of_int ?f + 1 :: real)" "(of_int ?f - 1 :: real) < of_int m"
      by linarith+
    then have "m < ?f + 1" "?f - 1 < m" by linarith+
    then have "m = ?f" by simp
    with True show ?thesis by (simp add: round_half_even_def Let_def)
  next
    case False
    from assms f have "(of_int ?f :: real) < of_int m + 1 / 2" by linarith
    with False assms f have "(of_int ?f :: real) < of_int m" "of_int m < (of_int ?f + 2 :: real)"
      by linarith+
    then have "?f < m" "m < ?f + 2" by linarith+
    then have m: "m = ?f + 1" by simp
    with assms have "1 / 2 < y - of_int ?f" by simp
    with False m show ?thesis by (simp add: round_half_even_def Let_def)
  qed
qed

lemma round_half_even_error: "\<bar>of_int (round_half_even y) - y\<bar> \<le> 1 / 2"
proof -
  let ?f = "\<lfloor>y\<rfloor>"
  have f: "of_int ?f \<le> y" "y < of_int ?f + 1" by linarith+
  consider "y - of_int ?f < 1 / 2" | "1 / 2 < y - of_int ?f" | "y - of_int ?f = 1 / 2"
    by linarith
  then show ?thesis
  proof cases
    case 1
    then have "round_half_even y = ?f" by (simp add: round_half_even_def Let_def)
    with 1 f show ?thesis by simp
  next
    case 2
    then have "round_half_even y = ?f + 1" by (simp add: round_half_even_def Let_def)
    with 2 f show ?thesis by simp
  next
    case 3
    then have "round_half_even y = ?f \<or> round_half_even y = ?f + 1"
      by (simp add: round_half_even_def Let_def)
    with 3 show ?thesis by auto
  qed
qed

lemma binary64_eqI:
  assumes lo: "2 powi e \<le> \<bar>x\<bar>" and hi: "\<bar>x\<bar> < 2 powi (e + 1)"
    and m: "\<bar>x * 2 powi (52 - e) - of_int m\<bar> < 1 / 2"
    and v: "v = of_int m * 2 powi (e - 52)"
  shows "binary64 x = v"
proof -
  have "0 < (2::real) powi e" by simp
  with lo have pos: "0 < \<bar>x\<bar>" by linarith
  then have nz: "x \<noteq> 0" by simp
  from exponent_unique [OF pos lo hi] have e: "exponent \<bar>x\<bar> = e" .
  from round_half_even_eqI [OF m] have "round_half_even (x * 2 powi (52 - e)) = m" .
  with nz e v show ?thesis by (simp add: binary64_def)
qed

lemma binary64_error: "\<bar>binary64 x - x\<bar> \<le> \<bar>x\<bar> / 2 ^ 53"
proof (cases "x = 0")
  case True
  then show ?thesis by (simp add: binary64_def)
next
  case False
  then have pos: "0 < \<bar>x\<bar>" by simp
  let ?e = "exponent \<bar>x\<bar>"
  let ?s = "(2::real) powi (52 - ?e)"
  let ?r = "of_int (round_half_even (x * ?s)) :: real"
  have s: "0 < ?s" by simp
  have inv: "(2::real) powi (?e - 52) = 1 / ?s"
  proof -
    have "(2::real) powi (?e - 52) = 2 powi (- (52 - ?e))" by simp
    also have "\<dots> = 1 / ?s" by (simp only: power_int_minus_divide)
    finally show ?thesis .
  qed
  have b: "binary64 x = ?r / ?s"
    using False by (simp add: binary64_def Let_def inv)
  from exponent_bounds [OF pos] have lo: "2 powi ?e \<le> \<bar>x\<bar>" by simp
  have "(2::real) ^ 52 = 2 powi ?e * ?s"
    by (simp flip: power_int_add)
  also have "\<dots> \<le> \<bar>x\<bar> * ?s" using lo s by (intro mult_right_mono) auto
  finally have big: "2 ^ 52 \<le> \<bar>x\<bar> * ?s" .
  have "binary64 x - x = (?r - x * ?s) / ?s"
    unfolding b using s by (simp add: field_simps)
  then have "\<bar>binary64 x - x\<bar> = \<bar>(?r - x * ?s) / ?s\<bar>"
    by simp
  also have "\<dots> = \<bar>?r - x * ?s\<bar> / ?s" using s by simp
  also have "\<dots> \<le> (1 / 2) / ?s"
    using round_half_even_error [of "x * ?s"] s by (intro divide_right_mono) auto
  also have "\<dots> \<le> (\<bar>x\<bar> * ?s / 2 ^ 53) / ?s"
    using big s by (intro divide_right_mono) auto
  also have "\<dots> = \<bar>x\<bar> / 2 ^ 53" using s by simp
  finally show ?thesis .
qed

lemma round_half_even_tieI:
  assumes "y = of_int f + 1 / 2"
  shows "round_half_even y = (if even f then f else f + 1)"
proof -
  from assms have "\<lfloor>y\<rfloor> = f" by linarith
  with assms show ?thesis by (simp add: round_half_even_def Let_def)
qed

lemma binary64_tieI:
  assumes lo: "2 powi e \<le> \<bar>x\<bar>" and hi: "\<bar>x\<bar> < 2 powi (e + 1)"
    and m: "x * 2 powi (52 - e) = of_int f + 1 / 2"
    and v: "v = of_int (if even f then f else f + 1) * 2 powi (e - 52)"
  shows "binary64 x = v"
proof -
  have "0 < (2::real) powi e" by simp
  with lo have pos: "0 < \<bar>x\<bar>" by linarith
  then have nz: "x \<noteq> 0" by simp
  from exponent_unique [OF pos lo hi] have e: "exponent \<bar>x\<bar> = e" .
  from round_half_even_tieI [OF m]
  have "round_half_even (x * 2 powi (52 - e)) = (if even f then f else f + 1)" .
  with nz e v show ?thesis by (simp add: binary64_def)
qed

end
